theory Spec2Isabelle
  imports Complex_Main "HOL-Library.Char_ord" "HOL-Library.List_Lexorder"
begin

section \<open>The weather table\<close>

text \<open>
  The pipeline of \<^verbatim>\<open>Nika.py\<close> works on a pandas DataFrame. A DataFrame is modelled as
  the list of its rows in index order; a row is a record of the columns the code reads.
  A numeric cell is a rational number or null (\<open>None\<close> stands for NaN), a string cell is a
  string or null. The grouping key \<open>city\<close> is a string. Numbers are exact rationals:
  the binary rounding of floating point arithmetic is not part of the model.

  Exceptions are values: a function that can raise returns \<open>error + 'a\<close>, with \<open>Inl\<close>
  for the exception. \<open>ValueError\<close> is what \<open>round\<close> and \<open>to_datetime\<close> raise (with its
  subclasses); \<open>TypeError\<close> is an exception that \<^verbatim>\<open>except ValueError\<close> does not catch.
\<close>

datatype error = ValueError | TypeError

datatype timestamp = Timestamp (year: nat) (month: nat) (day: nat)

text \<open>
  The columns \<open>date\<close> and \<open>weather_condition\<close> change their type along the pipeline
  (a string becomes a timestamp, a nullable string becomes a string), so the record is
  polymorphic in them. The column \<open>temperature_fahrenheit\<close> exists from stage 4 on.
\<close>

record ('d, 'w) weather_row =
  city :: string
  date :: 'd
  weather_condition :: 'w
  temperature_celsius :: "rat option"
  humidity_percent :: "rat option"
  wind_speed_kph :: "rat option"

record ('d, 'w) wide_row = "('d, 'w) weather_row" +
  temperature_fahrenheit :: "rat option"

type_synonym row = "(string option, string option) weather_row"
type_synonym dataframe = "row list"
type_synonym cleaned_row = "(timestamp option, string) wide_row"


section \<open>Stage 1: filling missing values with the city's rounded mean\<close>

text \<open>
  \<^verbatim>\<open>df.groupby('city')[col].transform(lambda x: x.fillna(round(x.mean())))\<close>

  \<open>groupby\<close> yields one group per distinct city, in ascending key order. \<open>x.mean()\<close>
  skips the nulls of the group and is NaN when nothing is left. \<open>round\<close> is Python's
  built-in: it returns the nearest integer, a tie going to the even neighbour, and
  raises \<open>ValueError\<close> on NaN (\<^verbatim>\<open>cannot convert float NaN to integer\<close>). \<open>fillna\<close>
  replaces the nulls of the group by that integer. \<open>transform\<close> calls the lambda on
  every group, so an exception in one group ends the whole call, and puts the results
  back in the row order of the table.
\<close>

definition groups :: "('d, 'w, 'z) weather_row_scheme list \<Rightarrow> string list" where
  "groups df = sort (remdups (map city df))"

definition group_values ::
  "(('d, 'w, 'z) weather_row_scheme \<Rightarrow> rat option) \<Rightarrow> ('d, 'w, 'z) weather_row_scheme list \<Rightarrow> string \<Rightarrow> rat list" where
  "group_values col df c = List.map_filter col (filter (\<lambda>r. city r = c) df)"

definition mean :: "rat list \<Rightarrow> rat option" where
  "mean vs = (if vs = [] then None else Some (sum_list vs / of_nat (length vs)))"

definition round_half_even :: "rat \<Rightarrow> int" where
  "round_half_even q =
     (let f = \<lfloor>q\<rfloor>; d = q - of_int f
      in if d < 1 / 2 then f
         else if 1 / 2 < d then f + 1
         else if even f then f else f + 1)"

definition py_round :: "rat option \<Rightarrow> error + int" where
  "py_round x = (case x of None \<Rightarrow> Inl ValueError | Some q \<Rightarrow> Inr (round_half_even q))"

definition fillna :: "rat option \<Rightarrow> int \<Rightarrow> rat option" where
  "fillna v k = (case v of None \<Rightarrow> Some (of_int k) | Some q \<Rightarrow> Some q)"

text \<open>First pass: the fill value of every group, or the first exception.\<close>

fun group_fills ::
  "(('d, 'w, 'z) weather_row_scheme \<Rightarrow> rat option) \<Rightarrow> ('d, 'w, 'z) weather_row_scheme list \<Rightarrow> string list
     \<Rightarrow> error + (string \<times> int) list" where
  "group_fills col df [] = Inr []"
| "group_fills col df (c # cs) =
     (case py_round (mean (group_values col df c)) of
        Inl e \<Rightarrow> Inl e
      | Inr k \<Rightarrow> (case group_fills col df cs of
                   Inl e \<Rightarrow> Inl e
                 | Inr fs \<Rightarrow> Inr ((c, k) # fs)))"

text \<open>Second pass: every row is filled with the value of its own group.\<close>

definition transform_fillna ::
  "(('d, 'w, 'z) weather_row_scheme \<Rightarrow> rat option) \<Rightarrow> ('d, 'w, 'z) weather_row_scheme list
     \<Rightarrow> error + rat option list" where
  "transform_fillna col df =
     (case group_fills col df (groups df) of
        Inl e \<Rightarrow> Inl e
      | Inr fs \<Rightarrow> Inr (map (\<lambda>r. case map_of fs (city r) of
                                    None \<Rightarrow> col r
                                  | Some k \<Rightarrow> fillna (col r) k) df))"

text \<open>\<^verbatim>\<open>df[col] = ...\<close>: the new column replaces the old one, row by row.\<close>

definition assign_temperature_celsius :: "dataframe \<Rightarrow> rat option list \<Rightarrow> dataframe" where
  "assign_temperature_celsius df vs = map (\<lambda>(r, v). r\<lparr>temperature_celsius := v\<rparr>) (zip df vs)"

definition assign_humidity_percent :: "dataframe \<Rightarrow> rat option list \<Rightarrow> dataframe" where
  "assign_humidity_percent df vs = map (\<lambda>(r, v). r\<lparr>humidity_percent := v\<rparr>) (zip df vs)"

definition assign_wind_speed_kph :: "dataframe \<Rightarrow> rat option list \<Rightarrow> dataframe" where
  "assign_wind_speed_kph df vs = map (\<lambda>(r, v). r\<lparr>wind_speed_kph := v\<rparr>) (zip df vs)"

section \<open>Stage 2: dropping rows without date or weather condition\<close>

definition dropna :: "dataframe \<Rightarrow> dataframe" where
  "dropna df = filter (\<lambda>r. date r \<noteq> None \<and> weather_condition r \<noteq> None) df"

section \<open>Stage 3: the date parser\<close>

text \<open>
  \<^verbatim>\<open>pd.to_datetime(date, format=fmt)\<close> is modelled by the regular expressions that
  \<open>strptime\<close> builds from a format: \<^verbatim>\<open>%d\<close> is \<^verbatim>\<open>3[0-1]|[1-2]\d|0[1-9]|[1-9]| [1-9]\<close>,
  \<^verbatim>\<open>%m\<close> is \<^verbatim>\<open>1[0-2]|0[1-9]|[1-9]\<close>, \<^verbatim>\<open>%Y\<close> is \<^verbatim>\<open>\d\d\d\d\<close>, any other character
  stands for itself. The expression is matched at the start of the value, the
  alternatives tried in the order written, with backtracking; the match must use up
  the value, and the fields must form a date of the calendar. Every failure is a
  \<open>ValueError\<close>. A null, the empty string and the strings pandas reads as missing give
  NaT without an exception. A timestamp is modelled by its calendar date (the time of
  day is midnight for all these formats); the bounds of the representable range of a
  pandas Timestamp are not modelled.

  The matcher returns every way the format matches a prefix of the value, best first:
  the state is the text still to read and the fields (year, month, day) found so far.
\<close>

type_synonym fields = "nat \<times> nat \<times> nat"

definition in_class :: "char \<Rightarrow> char \<Rightarrow> char \<Rightarrow> bool" where
  "in_class lo hi c = ((of_char lo :: nat) \<le> of_char c \<and> (of_char c :: nat) \<le> of_char hi)"

definition digit_val :: "char \<Rightarrow> nat" where
  "digit_val c = of_char c - 48"

definition directive_d :: "string \<times> fields \<Rightarrow> (string \<times> fields) list" where
  "directive_d st =
     (case st of (s, (y, m, d)) \<Rightarrow>
        (case s of
           c1 # c2 # r \<Rightarrow>
             (if c1 = CHR ''3'' \<and> in_class (CHR ''0'') (CHR ''1'') c2
              then [(r, (y, m, 30 + digit_val c2))] else []) @
             (if in_class (CHR ''1'') (CHR ''2'') c1 \<and> in_class (CHR ''0'') (CHR ''9'') c2
              then [(r, (y, m, 10 * digit_val c1 + digit_val c2))] else []) @
             (if c1 = CHR ''0'' \<and> in_class (CHR ''1'') (CHR ''9'') c2
              then [(r, (y, m, digit_val c2))] else [])
         | _ \<Rightarrow> []) @
        (case s of
           c1 # r \<Rightarrow> (if in_class (CHR ''1'') (CHR ''9'') c1 then [(r, (y, m, digit_val c1))] else [])
         | [] \<Rightarrow> []) @
        (case s of
           c1 # c2 # r \<Rightarrow>
             (if c1 = CHR '' '' \<and> in_class (CHR ''1'') (CHR ''9'') c2
              then [(r, (y, m, digit_val c2))] else [])
         | _ \<Rightarrow> []))"

definition directive_m :: "string \<times> fields \<Rightarrow> (string \<times> fields) list" where
  "directive_m st =
     (case st of (s, (y, m, d)) \<Rightarrow>
        (case s of
           c1 # c2 # r \<Rightarrow>
             (if c1 = CHR ''1'' \<and> in_class (CHR ''0'') (CHR ''2'') c2
              then [(r, (y, 10 + digit_val c2, d))] else []) @
             (if c1 = CHR ''0'' \<and> in_class (CHR ''1'') (CHR ''9'') c2
              then [(r, (y, digit_val c2, d))] else [])
         | _ \<Rightarrow> []) @
        (case s of
           c1 # r \<Rightarrow> (if in_class (CHR ''1'') (CHR ''9'') c1 then [(r, (y, digit_val c1, d))] else [])
         | [] \<Rightarrow> []))"

definition directive_Y :: "string \<times> fields \<Rightarrow> (string \<times> fields) list" where
  "directive_Y st =
     (case st of (s, (y, m, d)) \<Rightarrow>
        (case s of
           c1 # c2 # c3 # c4 # r \<Rightarrow>
             (if list_all (in_class (CHR ''0'') (CHR ''9'')) [c1, c2, c3, c4]
              then [(r, (1000 * digit_val c1 + 100 * digit_val c2 + 10 * digit_val c3 + digit_val c4, m, d))]
              else [])
         | _ \<Rightarrow> []))"

definition literal :: "char \<Rightarrow> string \<times> fields \<Rightarrow> (string \<times> fields) list" where
  "literal c st =
     (case st of (s, f) \<Rightarrow> (case s of [] \<Rightarrow> [] | x # r \<Rightarrow> (if x = c then [(r, f)] else [])))"

fun matches :: "string \<Rightarrow> string \<times> fields \<Rightarrow> (string \<times> fields) list" where
  "matches [] st = [st]"
| "matches (c # fmt) st =
     (if c = CHR ''%'' then
        (case fmt of
           [] \<Rightarrow> []
         | k # fmt' \<Rightarrow>
             (if k = CHR ''d'' then concat (map (matches fmt') (directive_d st))
              else if k = CHR ''m'' then concat (map (matches fmt') (directive_m st))
              else if k = CHR ''Y'' then concat (map (matches fmt') (directive_Y st))
              else []))
      else concat (map (matches fmt) (literal c st)))"

definition is_leap :: "nat \<Rightarrow> bool" where
  "is_leap y = (y mod 4 = 0 \<and> (y mod 400 = 0 \<or> y mod 100 \<noteq> 0))"

definition days_in_month :: "nat \<Rightarrow> nat \<Rightarrow> nat" where
  "days_in_month y m =
     (if m = 2 then (if is_leap y then 29 else 28)
      else if m = 4 \<or> m = 6 \<or> m = 9 \<or> m = 11 then 30 else 31)"

definition valid_date :: "nat \<Rightarrow> nat \<Rightarrow> nat \<Rightarrow> bool" where
  "valid_date y m d = (1 \<le> y \<and> y \<le> 9999 \<and> 1 \<le> m \<and> m \<le> 12 \<and> 1 \<le> d \<and> d \<le> days_in_month y m)"

definition nat_strings :: "string list" where
  "nat_strings = [''NaT'', ''nat'', ''NAT'', ''nan'', ''NaN'', ''NAN'']"

text \<open>The result \<open>None\<close> is NaT.\<close>

definition to_datetime :: "string option \<Rightarrow> string \<Rightarrow> error + timestamp option" where
  "to_datetime arg fmt =
     (case arg of
        None \<Rightarrow> Inr None
      | Some val \<Rightarrow>
          (if val = [] \<or> val \<in> set nat_strings then Inr None
           else (case matches fmt (val, (1900, 1, 1)) of
                   [] \<Rightarrow> Inl ValueError
                 | (rest, (y, m, d)) # _ \<Rightarrow>
                     (if rest \<noteq> [] then Inl ValueError
                      else if valid_date y m d then Inr (Some (Timestamp y m d))
                      else Inl ValueError))))"

definition formats :: "string list" where
  "formats = [''%d-%m-%Y'', ''%d.%m.%Y'', ''%m/%d/%Y'', ''%Y-%m-%d'', ''%d/%m/%Y'',
              ''%m-%d-%Y'', ''%m.%d.%Y'', ''%Y.%m.%d'', ''%Y/%m/%d'']"

text \<open>
  The loop of \<open>custom_date_parser\<close>: \<^verbatim>\<open>except ValueError: continue\<close> goes on with the
  next format, any other exception leaves the function, and after the last format the
  function returns NaT.
\<close>

fun try_formats :: "string option \<Rightarrow> string list \<Rightarrow> error + timestamp option" where
  "try_formats arg [] = Inr None"
| "try_formats arg (fmt # fmts) =
     (case to_datetime arg fmt of
        Inr ts \<Rightarrow> Inr ts
      | Inl e \<Rightarrow> (if e = ValueError then try_formats arg fmts else Inl e))"

definition custom_date_parser :: "string option \<Rightarrow> error + timestamp option" where
  "custom_date_parser arg = try_formats arg formats"

text \<open>\<^verbatim>\<open>df['date'] = df['date'].apply(custom_date_parser)\<close>\<close>

fun apply_custom_date_parser ::
  "dataframe \<Rightarrow> error + (timestamp option, string option) weather_row list" where
  "apply_custom_date_parser [] = Inr []"
| "apply_custom_date_parser (r # rs) =
     (case custom_date_parser (date r) of
        Inl e \<Rightarrow> Inl e
      | Inr ts \<Rightarrow>
          (case apply_custom_date_parser rs of
             Inl e \<Rightarrow> Inl e
           | Inr rs' \<Rightarrow>
               Inr (\<lparr>city = city r, date = ts, weather_condition = weather_condition r,
                     temperature_celsius = temperature_celsius r,
                     humidity_percent = humidity_percent r,
                     wind_speed_kph = wind_speed_kph r\<rparr> # rs')))"

section \<open>Stage 4: the Fahrenheit column\<close>

text \<open>\<^verbatim>\<open>df['temperature_celsius'] * 9 / 5 + 32\<close>: a null stays null.\<close>

definition fahrenheit :: "rat option \<Rightarrow> rat option" where
  "fahrenheit v = (case v of None \<Rightarrow> None | Some c \<Rightarrow> Some (c * 9 / 5 + 32))"

definition add_temperature_fahrenheit ::
  "(timestamp option, string option) weather_row list \<Rightarrow> (timestamp option, string option) wide_row list" where
  "add_temperature_fahrenheit df =
     map (\<lambda>r. \<lparr>city = city r, date = date r, weather_condition = weather_condition r,
               temperature_celsius = temperature_celsius r,
               humidity_percent = humidity_percent r,
               wind_speed_kph = wind_speed_kph r,
               temperature_fahrenheit = fahrenheit (temperature_celsius r)\<rparr>) df"

section \<open>Stage 5: the category normalizer\<close>

text \<open>
  \<^verbatim>\<open>str(data).strip().title()\<close>. \<open>str\<close> of a string is the string, \<open>str\<close> of NaN is
  \<^verbatim>\<open>nan\<close>. \<open>strip\<close> removes the white space at both ends. \<open>title\<close> reads the string
  from left to right: a character that follows a cased character is lowercased, any
  other is uppercased. Strings are ASCII in the model: the letters are \<open>A\<close> to \<open>Z\<close> and
  \<open>a\<close> to \<open>z\<close>, the white space is the codes 9 to 13 and 28 to 32.
\<close>

definition is_space :: "char \<Rightarrow> bool" where
  "is_space c = (let n = (of_char c :: nat) in (9 \<le> n \<and> n \<le> 13) \<or> (28 \<le> n \<and> n \<le> 32))"

definition is_upper :: "char \<Rightarrow> bool" where
  "is_upper c = in_class (CHR ''A'') (CHR ''Z'') c"

definition is_lower :: "char \<Rightarrow> bool" where
  "is_lower c = in_class (CHR ''a'') (CHR ''z'') c"

definition is_cased :: "char \<Rightarrow> bool" where
  "is_cased c = (is_upper c \<or> is_lower c)"

definition to_upper :: "char \<Rightarrow> char" where
  "to_upper c = (if is_lower c then char_of ((of_char c :: nat) - 32) else c)"

definition to_lower :: "char \<Rightarrow> char" where
  "to_lower c = (if is_upper c then char_of ((of_char c :: nat) + 32) else c)"

definition py_str :: "string option \<Rightarrow> string" where
  "py_str data = (case data of None \<Rightarrow> ''nan'' | Some s \<Rightarrow> s)"

definition strip :: "string \<Rightarrow> string" where
  "strip s = rev (dropWhile is_space (rev (dropWhile is_space s)))"

fun title_from :: "bool \<Rightarrow> string \<Rightarrow> string" where
  "title_from previous_is_cased [] = []"
| "title_from previous_is_cased (c # cs) =
     (if previous_is_cased then to_lower c else to_upper c) # title_from (is_cased c) cs"

definition title :: "string \<Rightarrow> string" where
  "title s = title_from False s"

definition convert_to_string_and_capitalize :: "string option \<Rightarrow> string" where
  "convert_to_string_and_capitalize data = title (strip (py_str data))"

definition apply_convert_to_string_and_capitalize ::
  "(timestamp option, string option) wide_row list \<Rightarrow> cleaned_row list" where
  "apply_convert_to_string_and_capitalize df =
     map (\<lambda>r. \<lparr>city = city r, date = date r,
               weather_condition = convert_to_string_and_capitalize (weather_condition r),
               temperature_celsius = temperature_celsius r,
               humidity_percent = humidity_percent r,
               wind_speed_kph = wind_speed_kph r,
               temperature_fahrenheit = temperature_fahrenheit r\<rparr>) df"

section \<open>Stage 6 and the pipeline\<close>

definition drop_unknown :: "cleaned_row list \<Rightarrow> cleaned_row list" where
  "drop_unknown df = filter (\<lambda>r. weather_condition r \<noteq> ''Unknown'') df"

definition clean_weather_data :: "dataframe \<Rightarrow> error + cleaned_row list" where
  "clean_weather_data df =
     (case transform_fillna temperature_celsius df of
        Inl e \<Rightarrow> Inl e
      | Inr ts \<Rightarrow>
     (let df1 = assign_temperature_celsius df ts in
      case transform_fillna humidity_percent df1 of
        Inl e \<Rightarrow> Inl e
      | Inr hs \<Rightarrow>
     (let df2 = assign_humidity_percent df1 hs in
      case transform_fillna wind_speed_kph df2 of
        Inl e \<Rightarrow> Inl e
      | Inr ws \<Rightarrow>
     (let df3 = assign_wind_speed_kph df2 ws;
          df4 = dropna df3
      in case apply_custom_date_parser df4 of
           Inl e \<Rightarrow> Inl e
         | Inr df5 \<Rightarrow>
             Inr (drop_unknown
                    (apply_convert_to_string_and_capitalize
                       (add_temperature_fahrenheit df5)))))))"

section \<open>The report: the five hottest cities\<close>







section \<open>The wording of the specification, for comparison\<close>





section \<open>Writing a date as YYYY-MM-DD\<close>

text \<open>
  The ISO form of a date, as \<^verbatim>\<open>strftime('%Y-%m-%d')\<close> writes it: four digits for the year,
  two for the month and two for the day, separated by dashes.
\<close>

definition digit_char :: "nat \<Rightarrow> char" where
  "digit_char n = char_of (48 + n)"

definition isoformat :: "timestamp \<Rightarrow> string" where
  "isoformat ts =
     [digit_char (year ts div 1000), digit_char (year ts div 100 mod 10),
      digit_char (year ts div 10 mod 10), digit_char (year ts mod 10), CHR ''-'',
      digit_char (month ts div 10), digit_char (month ts mod 10), CHR ''-'',
      digit_char (day ts div 10), digit_char (day ts mod 10)]"

section \<open>Notions used in the statements\<close>

text \<open>The columns that decide whether a row stays: city, date and weather condition.\<close>

definition key :: "('d, 'w, 'z) weather_row_scheme \<Rightarrow> string \<times> 'd \<times> 'w" where
  "key r = (city r, date r, weather_condition r)"

text \<open>What stages 2 to 6 make of a row of the table after the imputation.\<close>

definition finish :: "row \<Rightarrow> cleaned_row" where
  "finish r =
     \<lparr>city = city r, date = projr (custom_date_parser (date r)),
      weather_condition = convert_to_string_and_capitalize (weather_condition r),
      temperature_celsius = temperature_celsius r,
      humidity_percent = humidity_percent r,
      wind_speed_kph = wind_speed_kph r,
      temperature_fahrenheit = fahrenheit (temperature_celsius r)\<rparr>"

definition kept :: "row \<Rightarrow> bool" where
  "kept r = (date r \<noteq> None \<and> weather_condition r \<noteq> None \<and>
             convert_to_string_and_capitalize (weather_condition r) \<noteq> ''Unknown'')"

text \<open>A variant of \<^verbatim>\<open>unknown\<close> in case and surrounding white space.\<close>

definition unknown_variant :: "string option \<Rightarrow> bool" where
  "unknown_variant w = (case w of None \<Rightarrow> False | Some s \<Rightarrow> map to_lower (strip s) = ''unknown'')"

text \<open>Every city of the table has a value in the column.\<close>

definition has_values :: "(row \<Rightarrow> rat option) \<Rightarrow> dataframe \<Rightarrow> bool" where
  "has_values col df = list_all (\<lambda>r. group_values col df (city r) \<noteq> []) df"


section \<open>Example tables\<close>

text \<open>A row with the given city, date, weather condition and temperature; humidity 50, wind 10.\<close>

definition obs :: "string \<Rightarrow> string option \<Rightarrow> string option \<Rightarrow> rat option \<Rightarrow> row" where
  "obs c d w t =
     \<lparr>city = c, date = d, weather_condition = w, temperature_celsius = t,
      humidity_percent = Some 50, wind_speed_kph = Some 10\<rparr>"



section \<open>Properties of the imputation\<close>

lemma set_groups: "set (groups df) = city ` set df"
  by (simp add: groups_def)

lemma py_round_Inr: "py_round x = Inr k \<longleftrightarrow> (\<exists>q. x = Some q \<and> k = round_half_even q)"
  by (auto simp: py_round_def split: option.splits)

lemma py_round_Inl: "py_round x = Inl e \<longleftrightarrow> (x = None \<and> e = ValueError)"
  by (auto simp: py_round_def split: option.splits)


lemma group_fills_Inl:
  "group_fills col df cs = Inl e \<longleftrightarrow> (e = ValueError \<and> (\<exists>c \<in> set cs. group_values col df c = []))"
  by (induction cs) (auto simp: py_round_Inl py_round_Inr mean_def split: sum.splits if_splits)

text \<open>The imputation raises exactly when some city has no value in the column.\<close>

lemma transform_fillna_Inl:
  "transform_fillna col df = Inl e \<longleftrightarrow>
     (e = ValueError \<and> (\<exists>r \<in> set df. group_values col df (city r) = []))"
proof (cases "group_fills col df (groups df)")
  case (Inl e')
  then have e': "e' = ValueError" "\<exists>c \<in> set (groups df). group_values col df c = []"
    by (simp_all add: group_fills_Inl)
  from Inl have "transform_fillna col df = Inl e'"
    by (simp add: transform_fillna_def)
  with e' show ?thesis
    by (auto simp: set_groups)
next
  case (Inr fs)
  have "\<not> (\<exists>c \<in> set (groups df). group_values col df c = [])"
  proof
    assume "\<exists>c \<in> set (groups df). group_values col df c = []"
    then have "group_fills col df (groups df) = Inl ValueError"
      by (simp add: group_fills_Inl)
    with Inr show False by simp
  qed
  with Inr show ?thesis
    by (auto simp: transform_fillna_def set_groups)
qed

lemma transform_fillna_length:
  "transform_fillna col df = Inr vs \<Longrightarrow> length vs = length df"
  by (auto simp: transform_fillna_def split: sum.splits)



lemma round_half_even_nearest: "\<bar>of_int (round_half_even q) - q\<bar> \<le> 1 / 2"
proof -
  have "of_int \<lfloor>q\<rfloor> \<le> q" and "q < of_int \<lfloor>q\<rfloor> + 1"
    by linarith+
  then show ?thesis
    unfolding round_half_even_def Let_def
    by (auto split: if_splits)
qed



text \<open>
  C2. A city without any value in the column: the mean is NaN, \<open>round\<close> raises
  \<open>ValueError\<close>, and the exception ends the imputation and the whole cleaning. The rows
  of that city do not stay null, no table is returned. The scenario of the claim, one
  null beside 10 and 20, gives 15.
\<close>

theorem imputation_raises_on_city_without_values:
  "transform_fillna temperature_celsius [obs ''X'' (Some ''2020-01-01'') (Some ''Sunny'') None]
     = Inl ValueError \<and>
   clean_weather_data [obs ''X'' (Some ''2020-01-01'') (Some ''Sunny'') None] = Inl ValueError \<and>
   transform_fillna temperature_celsius
     [obs ''X'' None None None, obs ''X'' None None (Some 10), obs ''X'' None None (Some 20)]
     = Inr [Some 15, Some 10, Some 20]"
  by code_simp

section \<open>Properties of the date parser\<close>

lemma to_datetime_error: "to_datetime arg fmt = Inl e \<Longrightarrow> e = ValueError"
  by (auto simp: to_datetime_def split: option.splits if_splits list.splits prod.splits)

lemma try_formats_returns: "\<exists>ts. try_formats arg fmts = Inr ts"
proof (induction fmts)
  case Nil
  show ?case by simp
next
  case (Cons fmt fmts)
  show ?case
  proof (cases "to_datetime arg fmt")
    case (Inl e)
    then have "e = ValueError" by (rule to_datetime_error)
    with Inl Cons.IH show ?thesis by simp
  next
    case (Inr ts)
    then show ?thesis by simp
  qed
qed

lemma try_formats_all_fail:
  "\<forall>fmt \<in> set fmts. \<exists>e. to_datetime arg fmt = Inl e \<Longrightarrow> try_formats arg fmts = Inr None"
proof (induction fmts)
  case Nil
  show ?case by simp
next
  case (Cons fmt fmts)
  then obtain e where "to_datetime arg fmt = Inl e" by auto
  moreover from this have "e = ValueError" by (rule to_datetime_error)
  ultimately show ?case using Cons by simp
qed

text \<open>The loop returns what the first format that does not raise returns.\<close>

lemma try_formats_first:
  "try_formats arg fmts = Inr ts \<longleftrightarrow>
     (\<exists>pre fmt post. fmts = pre @ fmt # post \<and>
        (\<forall>f \<in> set pre. to_datetime arg f = Inl ValueError) \<and> to_datetime arg fmt = Inr ts) \<or>
     (ts = None \<and> (\<forall>f \<in> set fmts. to_datetime arg f = Inl ValueError))"
proof (induction fmts)
  case Nil
  show ?case by auto
next
  case (Cons a fmts)
  show ?case
  proof (cases "to_datetime arg a")
    case (Inr ts')
    have "(\<exists>pre fmt post. a # fmts = pre @ fmt # post \<and>
        (\<forall>f \<in> set pre. to_datetime arg f = Inl ValueError) \<and> to_datetime arg fmt = Inr ts)
      \<longleftrightarrow> ts' = ts"
    proof
      assume "\<exists>pre fmt post. a # fmts = pre @ fmt # post \<and>
        (\<forall>f \<in> set pre. to_datetime arg f = Inl ValueError) \<and> to_datetime arg fmt = Inr ts"
      then obtain pre fmt post where *: "a # fmts = pre @ fmt # post"
        "\<forall>f \<in> set pre. to_datetime arg f = Inl ValueError" "to_datetime arg fmt = Inr ts"
        by blast
      show "ts' = ts"
      proof (cases pre)
        case Nil
        with * Inr show ?thesis by simp
      next
        case (Cons b pre')
        with * Inr show ?thesis by simp
      qed
    next
      assume "ts' = ts"
      with Inr have "a # fmts = [] @ a # fmts \<and>
        (\<forall>f \<in> set []. to_datetime arg f = Inl ValueError) \<and> to_datetime arg a = Inr ts"
        by simp
      then show "\<exists>pre fmt post. a # fmts = pre @ fmt # post \<and>
        (\<forall>f \<in> set pre. to_datetime arg f = Inl ValueError) \<and> to_datetime arg fmt = Inr ts"
        by blast
    qed
    with Inr show ?thesis by auto
  next
    case (Inl e)
    then have e: "to_datetime arg a = Inl ValueError"
      using to_datetime_error by blast
    have "(\<exists>pre fmt post. a # fmts = pre @ fmt # post \<and>
        (\<forall>f \<in> set pre. to_datetime arg f = Inl ValueError) \<and> to_datetime arg fmt = Inr ts)
      \<longleftrightarrow> (\<exists>pre fmt post. fmts = pre @ fmt # post \<and>
        (\<forall>f \<in> set pre. to_datetime arg f = Inl ValueError) \<and> to_datetime arg fmt = Inr ts)"
      (is "?L \<longleftrightarrow> ?R")
    proof
      assume ?L
      then obtain pre fmt post where *: "a # fmts = pre @ fmt # post"
        "\<forall>f \<in> set pre. to_datetime arg f = Inl ValueError" "to_datetime arg fmt = Inr ts"
        by blast
      show ?R
      proof (cases pre)
        case Nil
        with * e show ?thesis by simp
      next
        case (Cons b pre')
        with * have "fmts = pre' @ fmt # post"
          "\<forall>f \<in> set pre'. to_datetime arg f = Inl ValueError" by simp_all
        with *(3) show ?thesis by blast
      qed
    next
      assume ?R
      then obtain pre fmt post where *: "fmts = pre @ fmt # post"
        "\<forall>f \<in> set pre. to_datetime arg f = Inl ValueError" "to_datetime arg fmt = Inr ts"
        by blast
      with e have "a # fmts = (a # pre) @ fmt # post \<and>
        (\<forall>f \<in> set (a # pre). to_datetime arg f = Inl ValueError) \<and> to_datetime arg fmt = Inr ts"
        by simp
      then show ?L by blast
    qed
    with e Cons.IH show ?thesis by simp
  qed
qed

text \<open>
  C4. The parser tries the nine formats in the order of the source and returns what the
  first format that parses returns (NaT when none does). \<^verbatim>\<open>01/02/2020\<close> is read as month
  1, day 2 of 2020: the format month/day/year comes before day/month/year, which would
  read it as day 1 of month 2.
\<close>

theorem custom_date_parser_first_format_wins:
  "formats = [''%d-%m-%Y'', ''%d.%m.%Y'', ''%m/%d/%Y'', ''%Y-%m-%d'', ''%d/%m/%Y'',
              ''%m-%d-%Y'', ''%m.%d.%Y'', ''%Y.%m.%d'', ''%Y/%m/%d''] \<and>
   (custom_date_parser arg = Inr ts \<longleftrightarrow>
      (\<exists>pre fmt post. formats = pre @ fmt # post \<and>
         (\<forall>f \<in> set pre. to_datetime arg f = Inl ValueError) \<and> to_datetime arg fmt = Inr ts) \<or>
      (ts = None \<and> (\<forall>f \<in> set formats. to_datetime arg f = Inl ValueError))) \<and>
   custom_date_parser (Some ''01/02/2020'') = Inr (Some (Timestamp 2020 1 2)) \<and>
   to_datetime (Some ''01/02/2020'') ''%m/%d/%Y'' = Inr (Some (Timestamp 2020 1 2)) \<and>
   to_datetime (Some ''01/02/2020'') ''%d/%m/%Y'' = Inr (Some (Timestamp 2020 2 1))"
proof -
  have "formats = [''%d-%m-%Y'', ''%d.%m.%Y'', ''%m/%d/%Y'', ''%Y-%m-%d'', ''%d/%m/%Y'',
              ''%m-%d-%Y'', ''%m.%d.%Y'', ''%Y.%m.%d'', ''%Y/%m/%d'']"
    by (simp add: formats_def)
  moreover have "custom_date_parser (Some ''01/02/2020'') = Inr (Some (Timestamp 2020 1 2))"
    by code_simp
  moreover have "to_datetime (Some ''01/02/2020'') ''%m/%d/%Y'' = Inr (Some (Timestamp 2020 1 2))"
    by code_simp
  moreover have "to_datetime (Some ''01/02/2020'') ''%d/%m/%Y'' = Inr (Some (Timestamp 2020 2 1))"
    by code_simp
  ultimately show ?thesis
    unfolding custom_date_parser_def using try_formats_first [of arg formats ts] by simp
qed

theorem custom_date_parser_first_format_wins_witness:
  "to_datetime (Some ''13/02/2020'') ''%d-%m-%Y'' = Inl ValueError \<and>
   to_datetime (Some ''13/02/2020'') ''%d.%m.%Y'' = Inl ValueError \<and>
   to_datetime (Some ''13/02/2020'') ''%m/%d/%Y'' = Inl ValueError \<and>
   to_datetime (Some ''13/02/2020'') ''%Y-%m-%d'' = Inl ValueError \<and>
   to_datetime (Some ''13/02/2020'') ''%d/%m/%Y'' = Inr (Some (Timestamp 2020 2 13)) \<and>
   custom_date_parser (Some ''13/02/2020'') = Inr (Some (Timestamp 2020 2 13))"
proof -
  let ?arg = "Some ''13/02/2020''"
  let ?pre = "[''%d-%m-%Y'', ''%d.%m.%Y'', ''%m/%d/%Y'', ''%Y-%m-%d'']"
  let ?post = "[''%m-%d-%Y'', ''%m.%d.%Y'', ''%Y.%m.%d'', ''%Y/%m/%d'']"
  have f: "to_datetime ?arg ''%d-%m-%Y'' = Inl ValueError"
    "to_datetime ?arg ''%d.%m.%Y'' = Inl ValueError"
    "to_datetime ?arg ''%m/%d/%Y'' = Inl ValueError"
    "to_datetime ?arg ''%Y-%m-%d'' = Inl ValueError"
    by code_simp+
  have g: "to_datetime ?arg ''%d/%m/%Y'' = Inr (Some (Timestamp 2020 2 13))"
    by code_simp
  have "formats = ?pre @ ''%d/%m/%Y'' # ?post \<and>
      (\<forall>f \<in> set ?pre. to_datetime ?arg f = Inl ValueError) \<and>
      to_datetime ?arg ''%d/%m/%Y'' = Inr (Some (Timestamp 2020 2 13))"
    using f g by (simp add: formats_def)
  then have "\<exists>pre fmt post. formats = pre @ fmt # post \<and>
      (\<forall>f \<in> set pre. to_datetime ?arg f = Inl ValueError) \<and>
      to_datetime ?arg fmt = Inr (Some (Timestamp 2020 2 13))"
    by blast
  with custom_date_parser_first_format_wins [of ?arg "Some (Timestamp 2020 2 13)"]
  have "custom_date_parser ?arg = Inr (Some (Timestamp 2020 2 13))"
    by blast
  with f g show ?thesis by simp
qed

text \<open>
  C6. The parser never raises: for every cell, null or string, it returns a value, and
  when every format raises, the value is NaT.
\<close>

theorem custom_date_parser_never_raises:
  "(\<exists>ts. custom_date_parser arg = Inr ts) \<and>
   ((\<forall>fmt \<in> set formats. \<exists>e. to_datetime arg fmt = Inl e) \<longrightarrow> custom_date_parser arg = Inr None)"
  unfolding custom_date_parser_def
  using try_formats_returns [of arg formats] try_formats_all_fail [of formats arg] by blast

theorem custom_date_parser_never_raises_witness:
  "list_all (\<lambda>fmt. to_datetime (Some ''next Tuesday'') fmt = Inl ValueError) formats \<and>
   custom_date_parser (Some ''next Tuesday'') = Inr None"
proof -
  have h: "list_all (\<lambda>fmt. to_datetime (Some ''next Tuesday'') fmt = Inl ValueError) formats"
    by code_simp
  then have "\<forall>fmt \<in> set formats. \<exists>e. to_datetime (Some ''next Tuesday'') fmt = Inl e"
    by (simp add: list_all_iff)
  with custom_date_parser_never_raises [of "Some ''next Tuesday''"]
  have "custom_date_parser (Some ''next Tuesday'') = Inr None"
    by blast
  with h show ?thesis by simp
qed

subsection \<open>Dates in ISO form\<close>

lemma of_char_digit_char: "n < 10 \<Longrightarrow> (of_char (digit_char n) :: nat) = 48 + n"
  unfolding digit_char_def of_char_of by simp

lemma digit_char_eq: "n < 10 \<Longrightarrow> digit_char n = c \<longleftrightarrow> (of_char c :: nat) = 48 + n"
proof -
  assume n: "n < 10"
  have "digit_char n = c \<longleftrightarrow> (of_char (digit_char n) :: nat) = of_char c"
    by (simp only: of_char_eq_iff)
  also have "\<dots> \<longleftrightarrow> (of_char c :: nat) = 48 + n"
    using n by (simp only: of_char_digit_char) (rule eq_commute)
  finally show ?thesis .
qed

lemma digit_val_digit_char: "n < 10 \<Longrightarrow> digit_val (digit_char n) = n"
  by (simp add: digit_val_def of_char_digit_char)

lemma in_class_digit_char:
  "n < 10 \<Longrightarrow> in_class lo hi (digit_char n) \<longleftrightarrow> (of_char lo :: nat) \<le> 48 + n \<and> 48 + n \<le> (of_char hi :: nat)"
  by (simp add: in_class_def of_char_digit_char)


lemmas digit_simps = digit_char_eq digit_val_digit_char in_class_digit_char

lemma matches_Y_digits:
  assumes "a < 10" "b < 10" "c < 10" "e < 10"
  shows "matches (CHR ''%'' # CHR ''Y'' # fmt)
           (digit_char a # digit_char b # digit_char c # digit_char e # s, (y, m, d))
         = matches fmt (s, (1000 * a + 100 * b + 10 * c + e, m, d))"
  using assms by (simp add: directive_Y_def digit_simps)

lemma matches_literal:
  "sep \<noteq> CHR ''%'' \<Longrightarrow> matches (sep # fmt) (sep # s, f) = matches fmt (s, f)"
  by (simp add: literal_def)

lemma literal_digit_fails:
  assumes "c < 10" and "(of_char sep :: nat) < 48 \<or> 57 < (of_char sep :: nat)"
  shows "literal sep (digit_char c # s, f) = []"
  using assms by (auto simp: literal_def digit_simps)


lemma directive_d_rest:
  "(r, f') \<in> set (directive_d (c1 # c2 # s, f)) \<Longrightarrow> r = c2 # s \<or> r = s"
  by (cases f) (auto simp: directive_d_def split: if_splits list.splits)

lemma directive_m_rest:
  "(r, f') \<in> set (directive_m (c1 # c2 # s, f)) \<Longrightarrow> r = c2 # s \<or> r = s"
  by (cases f) (auto simp: directive_m_def split: if_splits list.splits)

lemma matches_sep_digit:
  assumes "c < 10" and "sep \<noteq> CHR ''%''"
    and "(of_char sep :: nat) < 48 \<or> 57 < (of_char sep :: nat)"
  shows "matches (sep # fmt) (digit_char c # s, f) = []"
  using assms by (simp add: literal_digit_fails)

lemma matches_d_sep_fails:
  assumes "b < 10" "c < 10" and "sep \<noteq> CHR ''%''"
    and "(of_char sep :: nat) < 48 \<or> 57 < (of_char sep :: nat)"
  shows "matches (CHR ''%'' # CHR ''d'' # sep # fmt) (c1 # digit_char b # digit_char c # s, f) = []"
proof -
  have "matches (sep # fmt) st = []" if "st \<in> set (directive_d (c1 # digit_char b # digit_char c # s, f))" for st
  proof -
    obtain r f' where st: "st = (r, f')" by (cases st)
    with that directive_d_rest have "r = digit_char b # digit_char c # s \<or> r = digit_char c # s"
      by blast
    with st consider (two) "st = (digit_char b # digit_char c # s, f')"
      | (one) "st = (digit_char c # s, f')" by auto
    then show ?thesis
    proof cases
      case two
      show ?thesis unfolding two by (rule matches_sep_digit [OF assms(1,3,4)])
    next
      case one
      show ?thesis unfolding one by (rule matches_sep_digit [OF assms(2,3,4)])
    qed
  qed
  then show ?thesis by simp
qed

lemma matches_m_sep_fails:
  assumes "b < 10" "c < 10" and "sep \<noteq> CHR ''%''"
    and "(of_char sep :: nat) < 48 \<or> 57 < (of_char sep :: nat)"
  shows "matches (CHR ''%'' # CHR ''m'' # sep # fmt) (c1 # digit_char b # digit_char c # s, f) = []"
proof -
  have "matches (sep # fmt) st = []" if "st \<in> set (directive_m (c1 # digit_char b # digit_char c # s, f))" for st
  proof -
    obtain r f' where st: "st = (r, f')" by (cases st)
    with that directive_m_rest have "r = digit_char b # digit_char c # s \<or> r = digit_char c # s"
      by blast
    with st consider (two) "st = (digit_char b # digit_char c # s, f')"
      | (one) "st = (digit_char c # s, f')" by auto
    then show ?thesis
    proof cases
      case two
      show ?thesis unfolding two by (rule matches_sep_digit [OF assms(1,3,4)])
    next
      case one
      show ?thesis unfolding one by (rule matches_sep_digit [OF assms(2,3,4)])
    qed
  qed
  then show ?thesis by simp
qed


lemma matches_m_padded:
  assumes "1 \<le> m" "m \<le> 12"
  shows "matches (CHR ''%'' # CHR ''m'' # fmt)
           (digit_char (m div 10) # digit_char (m mod 10) # s, (y, m0, d))
         = matches fmt (s, (y, m, d)) @
           (if 10 \<le> m then matches fmt (digit_char (m mod 10) # s, (y, 1, d)) else [])"
proof -
  from assms have "m = 1 \<or> m = 2 \<or> m = 3 \<or> m = 4 \<or> m = 5 \<or> m = 6 \<or> m = 7 \<or> m = 8 \<or> m = 9 \<or>
    m = 10 \<or> m = 11 \<or> m = 12" by arith
  then show ?thesis
    by (elim disjE) (simp_all add: directive_m_def digit_simps)
qed


lemma matches_d_padded:
  assumes "1 \<le> d" "d \<le> 31"
  shows "matches (CHR ''%'' # CHR ''d'' # fmt)
           (digit_char (d div 10) # digit_char (d mod 10) # s, (y, m, d0))
         = matches fmt (s, (y, m, d)) @
           (if 10 \<le> d then matches fmt (digit_char (d mod 10) # s, (y, m, d div 10)) else [])"
proof -
  from assms have "d = 1 \<or> d = 2 \<or> d = 3 \<or> d = 4 \<or> d = 5 \<or> d = 6 \<or> d = 7 \<or> d = 8 \<or> d = 9 \<or>
    d = 10 \<or> d = 11 \<or> d = 12 \<or> d = 13 \<or> d = 14 \<or> d = 15 \<or> d = 16 \<or> d = 17 \<or> d = 18 \<or>
    d = 19 \<or> d = 20 \<or> d = 21 \<or> d = 22 \<or> d = 23 \<or> d = 24 \<or> d = 25 \<or> d = 26 \<or> d = 27 \<or>
    d = 28 \<or> d = 29 \<or> d = 30 \<or> d = 31" by arith
  then show ?thesis
    by (elim disjE) (simp_all add: directive_d_def digit_simps)
qed

lemma days_in_month_le: "days_in_month y m \<le> 31"
  by (simp add: days_in_month_def)

lemma year_digits:
  "1000 * (y div 1000) + 100 * (y div 100 mod 10) + 10 * (y div 10 mod 10) + y mod 10 = (y::nat)"
proof -
  define a where "a = y div 10"
  define b where "b = a div 10"
  define c where "c = b div 10"
  have 1: "y div 100 = b"
    unfolding b_def a_def by (simp add: div_mult2_eq)
  have 2: "y div 1000 = c"
    unfolding c_def b_def a_def by (simp add: div_mult2_eq)
  have "10 * a + y mod 10 = y"
    unfolding a_def by simp
  moreover have "10 * b + a mod 10 = a"
    unfolding b_def by simp
  moreover have "10 * c + b mod 10 = b"
    unfolding c_def by simp
  ultimately show ?thesis
    unfolding 1 2 a_def [symmetric] by linarith
qed

lemma to_datetime_no_match:
  "val \<noteq> [] \<Longrightarrow> val \<notin> set nat_strings \<Longrightarrow> matches fmt (val, (1900, 1, 1)) = [] \<Longrightarrow>
     to_datetime (Some val) fmt = Inl ValueError"
  by (simp add: to_datetime_def)

lemma to_datetime_match:
  "val \<noteq> [] \<Longrightarrow> val \<notin> set nat_strings \<Longrightarrow>
     matches fmt (val, (1900, 1, 1)) = ([], (y, m, d)) # others \<Longrightarrow> valid_date y m d \<Longrightarrow>
     to_datetime (Some val) fmt = Inr (Some (Timestamp y m d))"
  by (simp add: to_datetime_def)

lemma isoformat_not_missing:
  "isoformat ts \<noteq> [] \<and> isoformat ts \<notin> set nat_strings"
  by (simp add: isoformat_def nat_strings_def)

lemma isoformat_matches:
  assumes "valid_date y m d"
  shows "\<exists>others. matches ''%Y-%m-%d'' (isoformat (Timestamp y m d), (1900, 1, 1)) = ([], (y, m, d)) # others"
proof -
  from assms have y: "y \<le> 9999" and m: "1 \<le> m" "m \<le> 12" and d: "1 \<le> d" "d \<le> 31"
    using days_in_month_le [of y m] by (auto simp: valid_date_def)
  from y have digits: "y div 1000 < 10" "y div 100 mod 10 < 10" "y div 10 mod 10 < 10" "y mod 10 < 10"
    by simp_all
  have "matches ''%Y-%m-%d'' (isoformat (Timestamp y m d), (1900, 1, 1))
      = matches ''-%m-%d'' ([CHR ''-'', digit_char (m div 10), digit_char (m mod 10), CHR ''-'',
          digit_char (d div 10), digit_char (d mod 10)], (y, 1, 1))"
    unfolding isoformat_def timestamp.sel
    by (simp only: matches_Y_digits [OF digits] year_digits)
  also have "\<dots> = matches ''%m-%d'' ([digit_char (m div 10), digit_char (m mod 10), CHR ''-'',
          digit_char (d div 10), digit_char (d mod 10)], (y, 1, 1))"
    by (rule matches_literal) simp
  also have "\<dots> = matches ''-%d'' ([CHR ''-'', digit_char (d div 10), digit_char (d mod 10)], (y, m, 1)) @
      (if 10 \<le> m then matches ''-%d'' ([digit_char (m mod 10), CHR ''-'',
          digit_char (d div 10), digit_char (d mod 10)], (y, 1, 1)) else [])"
    by (rule matches_m_padded [OF m])
  also have "matches ''-%d'' ([CHR ''-'', digit_char (d div 10), digit_char (d mod 10)], (y, m, 1))
      = matches ''%d'' ([digit_char (d div 10), digit_char (d mod 10)], (y, m, 1))"
    by (rule matches_literal) simp
  also have "\<dots> = matches [] ([], (y, m, d)) @
      (if 10 \<le> d then matches [] ([digit_char (d mod 10)], (y, m, d div 10)) else [])"
    by (rule matches_d_padded [OF d])
  finally show ?thesis by simp
qed


text \<open>
  C9. The ISO form of any date of the calendar (year 1 to 9999, so every four-digit
  year) parses back to the same date: the three formats tried before
  \<^verbatim>\<open>%Y-%m-%d\<close> raise on it, because the third character of the string is a digit where
  they need a separator.
\<close>

theorem isoformat_roundtrip:
  assumes "valid_date y m d"
  shows "custom_date_parser (Some (isoformat (Timestamp y m d))) = Inr (Some (Timestamp y m d)) \<and>
         to_datetime (Some (isoformat (Timestamp y m d))) ''%d-%m-%Y'' = Inl ValueError \<and>
         to_datetime (Some (isoformat (Timestamp y m d))) ''%d.%m.%Y'' = Inl ValueError \<and>
         to_datetime (Some (isoformat (Timestamp y m d))) ''%m/%d/%Y'' = Inl ValueError"
proof -
  let ?s = "isoformat (Timestamp y m d)"
  from assms have y: "y \<le> 9999" and m: "m \<le> 12"
    by (auto simp: valid_date_def)
  then have digits: "y div 100 mod 10 < 10" "y div 10 mod 10 < 10"
    by simp_all
  note nm = isoformat_not_missing [of "Timestamp y m d"]
  have "matches ''%d-%m-%Y'' (?s, (1900, 1, 1)) = []"
    unfolding isoformat_def timestamp.sel
    by (rule matches_d_sep_fails [OF digits]) simp_all
  with nm have f1: "to_datetime (Some ?s) ''%d-%m-%Y'' = Inl ValueError"
    by (simp add: to_datetime_no_match)
  have "matches ''%d.%m.%Y'' (?s, (1900, 1, 1)) = []"
    unfolding isoformat_def timestamp.sel
    by (rule matches_d_sep_fails [OF digits]) simp_all
  with nm have f2: "to_datetime (Some ?s) ''%d.%m.%Y'' = Inl ValueError"
    by (simp add: to_datetime_no_match)
  have "matches ''%m/%d/%Y'' (?s, (1900, 1, 1)) = []"
    unfolding isoformat_def timestamp.sel
    by (rule matches_m_sep_fails [OF digits]) simp_all
  with nm have f3: "to_datetime (Some ?s) ''%m/%d/%Y'' = Inl ValueError"
    by (simp add: to_datetime_no_match)
  from isoformat_matches [OF assms] obtain others where
    "matches ''%Y-%m-%d'' (?s, (1900, 1, 1)) = ([], (y, m, d)) # others" by blast
  with nm assms have f4: "to_datetime (Some ?s) ''%Y-%m-%d'' = Inr (Some (Timestamp y m d))"
    by (simp add: to_datetime_match)
  from f1 f2 f3 f4 have "custom_date_parser (Some ?s) = Inr (Some (Timestamp y m d))"
    by (simp add: custom_date_parser_def formats_def)
  with f1 f2 f3 show ?thesis by simp
qed

theorem isoformat_roundtrip_witness:
  "valid_date 2020 2 29 \<and> isoformat (Timestamp 2020 2 29) = ''2020-02-29'' \<and>
   custom_date_parser (Some ''2020-02-29'') = Inr (Some (Timestamp 2020 2 29))"
proof -
  have v: "valid_date 2020 2 29"
    by code_simp
  have s: "isoformat (Timestamp 2020 2 29) = ''2020-02-29''"
    by code_simp
  from isoformat_roundtrip [OF v] v s show ?thesis by simp
qed

section \<open>Properties of the pipeline\<close>

lemma key_assign:
  assumes "length vs = length df"
  shows "map key (assign_temperature_celsius df vs) = map key df"
    and "map key (assign_humidity_percent df vs) = map key df"
    and "map key (assign_wind_speed_kph df vs) = map key df"
proof -
  have "map key (assign_temperature_celsius df vs) = map key (map fst (zip df vs))"
    by (simp add: assign_temperature_celsius_def key_def case_prod_unfold)
  with assms show "map key (assign_temperature_celsius df vs) = map key df"
    by (simp only: map_fst_zip)
  have "map key (assign_humidity_percent df vs) = map key (map fst (zip df vs))"
    by (simp add: assign_humidity_percent_def key_def case_prod_unfold)
  with assms show "map key (assign_humidity_percent df vs) = map key df"
    by (simp only: map_fst_zip)
  have "map key (assign_wind_speed_kph df vs) = map key (map fst (zip df vs))"
    by (simp add: assign_wind_speed_kph_def key_def case_prod_unfold)
  with assms show "map key (assign_wind_speed_kph df vs) = map key df"
    by (simp only: map_fst_zip)
qed

lemma length_assign:
  "length vs = length df \<Longrightarrow> length (assign_temperature_celsius df vs) = length df"
  "length vs = length df \<Longrightarrow> length (assign_humidity_percent df vs) = length df"
  "length vs = length df \<Longrightarrow> length (assign_wind_speed_kph df vs) = length df"
  by (simp_all add: assign_temperature_celsius_def assign_humidity_percent_def assign_wind_speed_kph_def)

lemma custom_date_parser_returns: "\<exists>ts. custom_date_parser arg = Inr ts"
  unfolding custom_date_parser_def by (rule try_formats_returns)

lemma apply_custom_date_parser_eq:
  "apply_custom_date_parser df =
     Inr (map (\<lambda>r. \<lparr>city = city r, date = projr (custom_date_parser (date r)),
                     weather_condition = weather_condition r,
                     temperature_celsius = temperature_celsius r,
                     humidity_percent = humidity_percent r,
                     wind_speed_kph = wind_speed_kph r\<rparr>) df)"
proof (induction df)
  case Nil
  show ?case by simp
next
  case (Cons r df)
  from custom_date_parser_returns [of "date r"] obtain ts where
    "custom_date_parser (date r) = Inr ts" by blast
  with Cons show ?case by simp
qed

lemma clean_weather_data_Inr:
  assumes "clean_weather_data df = Inr out"
  obtains ts hs ws where
    "transform_fillna temperature_celsius df = Inr ts"
    "transform_fillna humidity_percent (assign_temperature_celsius df ts) = Inr hs"
    "transform_fillna wind_speed_kph (assign_humidity_percent (assign_temperature_celsius df ts) hs) = Inr ws"
    "out = map finish (filter kept
       (assign_wind_speed_kph (assign_humidity_percent (assign_temperature_celsius df ts) hs) ws))"
proof -
  from assms obtain ts hs ws where
    1: "transform_fillna temperature_celsius df = Inr ts"
    and 2: "transform_fillna humidity_percent (assign_temperature_celsius df ts) = Inr hs"
    and 3: "transform_fillna wind_speed_kph (assign_humidity_percent (assign_temperature_celsius df ts) hs) = Inr ws"
    and 4: "out = drop_unknown (apply_convert_to_string_and_capitalize (add_temperature_fahrenheit
         (map (\<lambda>r. \<lparr>city = city r, date = projr (custom_date_parser (date r)),
                     weather_condition = weather_condition r,
                     temperature_celsius = temperature_celsius r,
                     humidity_percent = humidity_percent r,
                     wind_speed_kph = wind_speed_kph r\<rparr>)
            (dropna (assign_wind_speed_kph (assign_humidity_percent (assign_temperature_celsius df ts) hs) ws)))))"
    by (auto simp: clean_weather_data_def Let_def apply_custom_date_parser_eq split: sum.splits)
  have "out = map finish (filter kept
       (assign_wind_speed_kph (assign_humidity_percent (assign_temperature_celsius df ts) hs) ws))"
    unfolding 4 drop_unknown_def apply_convert_to_string_and_capitalize_def
      add_temperature_fahrenheit_def dropna_def
    by (simp add: filter_map comp_def finish_def [abs_def] kept_def [abs_def] conj_ac)
  with 1 2 3 that show thesis by blast
qed

lemma map_filter_key:
  assumes "map K xs = map K ys"
  shows "map (\<lambda>r. g (K r)) (filter (\<lambda>r. k (K r)) xs) = map (\<lambda>r. g (K r)) (filter (\<lambda>r. k (K r)) ys)"
proof -
  have "map (\<lambda>r. g (K r)) (filter (\<lambda>r. k (K r)) zs) = map g (filter k (map K zs))" for zs
    by (simp add: filter_map comp_def)
  with assms show ?thesis by simp
qed

lemma clean_weather_data_keys:
  assumes "clean_weather_data df = Inr out"
  shows "map key out =
     map (\<lambda>r. (city r, projr (custom_date_parser (date r)),
                convert_to_string_and_capitalize (weather_condition r)))
       (filter kept df)"
proof -
  from assms obtain ts hs ws where
    1: "transform_fillna temperature_celsius df = Inr ts"
    and 2: "transform_fillna humidity_percent (assign_temperature_celsius df ts) = Inr hs"
    and 3: "transform_fillna wind_speed_kph (assign_humidity_percent (assign_temperature_celsius df ts) hs) = Inr ws"
    and out: "out = map finish (filter kept
       (assign_wind_speed_kph (assign_humidity_percent (assign_temperature_celsius df ts) hs) ws))"
    by (rule clean_weather_data_Inr)
  let ?df3 = "assign_wind_speed_kph (assign_humidity_percent (assign_temperature_celsius df ts) hs) ws"
  from 1 have l1: "length ts = length df"
    by (rule transform_fillna_length)
  from 2 have l2: "length hs = length (assign_temperature_celsius df ts)"
    by (rule transform_fillna_length)
  from 3 have l3: "length ws = length (assign_humidity_percent (assign_temperature_celsius df ts) hs)"
    by (rule transform_fillna_length)
  have keys: "map key ?df3 = map key df"
    by (simp only: key_assign [OF l3] key_assign [OF l2] key_assign [OF l1])
  let ?g = "\<lambda>(c, d, w). (c, projr (custom_date_parser d), convert_to_string_and_capitalize w)"
  let ?k = "\<lambda>(c, d, w). d \<noteq> None \<and> w \<noteq> None \<and> convert_to_string_and_capitalize w \<noteq> ''Unknown''"
  have "map key out = map (\<lambda>r. ?g (key r)) (filter (\<lambda>r. ?k (key r)) ?df3)"
    unfolding out by (simp add: key_def finish_def kept_def [abs_def])
  also have "\<dots> = map (\<lambda>r. ?g (key r)) (filter (\<lambda>r. ?k (key r)) df)"
    using keys by (rule map_filter_key)
  also have "\<dots> = map (\<lambda>r. (city r, projr (custom_date_parser (date r)),
                convert_to_string_and_capitalize (weather_condition r))) (filter kept df)"
    by (simp add: key_def kept_def [abs_def])
  finally show ?thesis .
qed

text \<open>
  C7. When the cleaning returns a table, its rows are exactly the rows of the input with
  a date and a weather condition whose normalized condition is not \<^verbatim>\<open>Unknown\<close>, in the
  order of the input, each with the result of the date parser as its date. A row whose
  date no format parses is among them, with NaT as its date: no stage drops it.
\<close>

theorem unparsed_dates_are_retained:
  assumes "clean_weather_data df = Inr out"
  shows "map (\<lambda>r. (city r, date r, weather_condition r)) out =
           map (\<lambda>r. (city r, projr (custom_date_parser (date r)),
                      convert_to_string_and_capitalize (weather_condition r)))
             (filter (\<lambda>r. date r \<noteq> None \<and> weather_condition r \<noteq> None \<and>
                           convert_to_string_and_capitalize (weather_condition r) \<noteq> ''Unknown'') df) \<and>
         (\<forall>r \<in> set df.
            date r \<noteq> None \<and> custom_date_parser (date r) = Inr None \<and> weather_condition r \<noteq> None \<and>
            convert_to_string_and_capitalize (weather_condition r) \<noteq> ''Unknown'' \<longrightarrow>
            (\<exists>r' \<in> set out. city r' = city r \<and> date r' = None \<and>
               weather_condition r' = convert_to_string_and_capitalize (weather_condition r)))"
proof -
  from clean_weather_data_keys [OF assms]
  have keys: "map (\<lambda>r. (city r, date r, weather_condition r)) out =
           map (\<lambda>r. (city r, projr (custom_date_parser (date r)),
                      convert_to_string_and_capitalize (weather_condition r)))
             (filter (\<lambda>r. date r \<noteq> None \<and> weather_condition r \<noteq> None \<and>
                           convert_to_string_and_capitalize (weather_condition r) \<noteq> ''Unknown'') df)"
    by (simp add: key_def [abs_def] kept_def [abs_def])
  have "\<exists>r' \<in> set out. city r' = city r \<and> date r' = None \<and>
               weather_condition r' = convert_to_string_and_capitalize (weather_condition r)"
    if r: "r \<in> set df" and d: "date r \<noteq> None" and nat: "custom_date_parser (date r) = Inr None"
      and w: "weather_condition r \<noteq> None"
      and u: "convert_to_string_and_capitalize (weather_condition r) \<noteq> ''Unknown''" for r
  proof -
    from r d w u nat have "(city r, None, convert_to_string_and_capitalize (weather_condition r))
        \<in> set (map (\<lambda>r. (city r, projr (custom_date_parser (date r)),
                      convert_to_string_and_capitalize (weather_condition r)))
             (filter (\<lambda>r. date r \<noteq> None \<and> weather_condition r \<noteq> None \<and>
                           convert_to_string_and_capitalize (weather_condition r) \<noteq> ''Unknown'') df))"
      by force
    with keys have "(city r, None, convert_to_string_and_capitalize (weather_condition r))
        \<in> set (map (\<lambda>r. (city r, date r, weather_condition r)) out)"
      by simp
    then show ?thesis by auto
  qed
  with keys show ?thesis by blast
qed

theorem unparsed_dates_are_retained_witness:
  "clean_weather_data
     [obs ''X'' (Some ''someday'') (Some ''rain'') (Some 20),
      obs ''X'' None (Some ''rain'') (Some 22),
      obs ''X'' (Some ''2020-01-02'') (Some '' unknown'') (Some 21)]
   = Inr [\<lparr>city = ''X'', date = None, weather_condition = ''Rain'',
           temperature_celsius = Some 20, humidity_percent = Some 50,
           wind_speed_kph = Some 10, temperature_fahrenheit = Some 68\<rparr>] \<and>
   custom_date_parser (Some ''someday'') = Inr None \<and>
   convert_to_string_and_capitalize (Some ''rain'') = ''Rain''"
proof -
  let ?r = "obs ''X'' (Some ''someday'') (Some ''rain'') (Some 20)"
  let ?df = "[?r, obs ''X'' None (Some ''rain'') (Some 22),
      obs ''X'' (Some ''2020-01-02'') (Some '' unknown'') (Some 21)]"
  let ?out = "[\<lparr>city = ''X'', date = None, weather_condition = ''Rain'',
           temperature_celsius = Some 20, humidity_percent = Some 50,
           wind_speed_kph = Some 10, temperature_fahrenheit = Some (68 :: rat)\<rparr>]"
  have h: "clean_weather_data ?df = Inr ?out"
    by code_simp
  have p: "custom_date_parser (Some ''someday'') = Inr None"
    by code_simp
  have n: "convert_to_string_and_capitalize (Some ''rain'') = ''Rain''"
    by code_simp
  from unparsed_dates_are_retained [OF h, THEN conjunct2, THEN bspec, of ?r] p n
  have "\<exists>r' \<in> set ?out. city r' = ''X'' \<and> date r' = None \<and> weather_condition r' = ''Rain''"
    by (simp add: obs_def)
  with h p n show ?thesis by simp
qed

text \<open>
  C1. In every row of the table that the cleaning returns, the Fahrenheit column is
  present, and where the Celsius temperature is not null it holds that temperature
  times 9/5 plus 32.
\<close>

theorem fahrenheit_column:
  assumes "clean_weather_data df = Inr out" and "r \<in> set out" and "temperature_celsius r = Some c"
  shows "temperature_fahrenheit r = Some (c * 9 / 5 + 32)"
proof -
  from assms(1) obtain xs where "out = map finish xs"
    by (rule clean_weather_data_Inr)
  with assms(2) obtain x where "r = finish x" by auto
  with assms(3) show ?thesis
    by (simp add: finish_def fahrenheit_def split: option.splits)
qed

theorem fahrenheit_column_witness:
  "clean_weather_data [obs ''Lagos'' (Some ''2020-01-01'') (Some ''sunny'') (Some 25)]
   = Inr [\<lparr>city = ''Lagos'', date = Some (Timestamp 2020 1 1), weather_condition = ''Sunny'',
           temperature_celsius = Some 25, humidity_percent = Some 50,
           wind_speed_kph = Some 10, temperature_fahrenheit = Some 77\<rparr>] \<and>
   Some (77 :: rat) = Some (25 * 9 / 5 + 32)"
proof -
  let ?r = "\<lparr>city = ''Lagos'', date = Some (Timestamp 2020 1 1), weather_condition = ''Sunny'',
           temperature_celsius = Some 25, humidity_percent = Some 50,
           wind_speed_kph = Some 10, temperature_fahrenheit = Some (77 :: rat)\<rparr>"
  have h: "clean_weather_data [obs ''Lagos'' (Some ''2020-01-01'') (Some ''sunny'') (Some 25)] = Inr [?r]"
    by code_simp
  have "?r \<in> set [?r]" and "temperature_celsius ?r = Some 25"
    by simp_all
  with h have "temperature_fahrenheit ?r = Some (25 * 9 / 5 + 32)"
    by (rule fahrenheit_column)
  with h show ?thesis by simp
qed

lemma no_unknown_after_cleaning:
  assumes "clean_weather_data df = Inr out" and "r \<in> set out"
  shows "weather_condition r \<noteq> ''Unknown''"
proof -
  from assms(1) obtain xs where "out = map finish (filter kept xs)"
    by (rule clean_weather_data_Inr)
  with assms(2) obtain x where "r = finish x" "kept x" by auto
  then show ?thesis
    by (simp add: finish_def kept_def)
qed

lemma to_lower_is_letter:
  assumes "to_lower c = l" and "is_lower l"
  shows "is_cased c \<and> to_upper c = to_upper l"
proof (cases "is_upper c")
  case True
  then have c: "65 \<le> (of_char c :: nat)" "(of_char c :: nat) \<le> 90"
    by (simp_all add: is_upper_def in_class_def)
  from True assms(1) have l: "l = char_of ((of_char c :: nat) + 32)"
    by (simp add: to_lower_def)
  have "(of_char l :: nat) = of_char c + 32"
    unfolding l of_char_of using c by simp
  then have "char_of ((of_char l :: nat) - 32) = c"
    by simp
  moreover from c have "\<not> is_lower c"
    by (simp add: is_lower_def in_class_def)
  ultimately show ?thesis
    using True assms(2) by (simp add: is_cased_def to_upper_def)
next
  case False
  with assms show ?thesis
    by (simp add: to_lower_def is_cased_def)
qed

lemma title_unknown:
  assumes "map to_lower t = ''unknown''"
  shows "title t = ''Unknown''"
proof -
  from assms obtain c1 c2 c3 c4 c5 c6 c7 where t: "t = [c1, c2, c3, c4, c5, c6, c7]"
    and l: "to_lower c1 = CHR ''u''" "to_lower c2 = CHR ''n''" "to_lower c3 = CHR ''k''"
      "to_lower c4 = CHR ''n''" "to_lower c5 = CHR ''o''" "to_lower c6 = CHR ''w''"
      "to_lower c7 = CHR ''n''"
    by (auto simp: map_eq_Cons_conv)
  have low: "is_lower (CHR ''u'')" "is_lower (CHR ''n'')" "is_lower (CHR ''k'')"
    "is_lower (CHR ''o'')" "is_lower (CHR ''w'')"
    by (simp_all add: is_lower_def in_class_def)
  have up: "to_upper (CHR ''u'') = CHR ''U''"
    by code_simp
  from to_lower_is_letter [OF l(1) low(1)] to_lower_is_letter [OF l(2) low(2)]
    to_lower_is_letter [OF l(3) low(3)] to_lower_is_letter [OF l(4) low(2)]
    to_lower_is_letter [OF l(5) low(4)] to_lower_is_letter [OF l(6) low(5)] l up
  show ?thesis
    unfolding t title_def by simp
qed

lemma unknown_variant_normalizes:
  "unknown_variant w \<Longrightarrow> convert_to_string_and_capitalize w = ''Unknown''"
  by (auto simp: unknown_variant_def convert_to_string_and_capitalize_def py_str_def title_unknown
      split: option.splits)

text \<open>If the cleaning returns a table and every condition is a variant of unknown, the table is empty.\<close>

lemma all_unknown_gives_empty:
  assumes "clean_weather_data df = Inr out" and "\<forall>r \<in> set df. unknown_variant (weather_condition r)"
  shows "out = []"
proof -
  from clean_weather_data_keys [OF assms(1)]
  have "map key out = map (\<lambda>r. (city r, projr (custom_date_parser (date r)),
                convert_to_string_and_capitalize (weather_condition r))) (filter kept df)" .
  moreover from assms(2) have "filter kept df = []"
    by (auto simp: filter_empty_conv kept_def unknown_variant_normalizes)
  ultimately show ?thesis by simp
qed

text \<open>The values of a column in a city do not change when another column is assigned.\<close>

lemma group_values_cong:
  assumes "map (\<lambda>r. (city r, col r)) df = map (\<lambda>r. (city r, col r)) df'"
  shows "group_values col df c = group_values col df' c"
proof -
  have "group_values col xs c = List.map_filter snd (filter (\<lambda>p. fst p = c) (map (\<lambda>r. (city r, col r)) xs))" for xs
    by (induction xs) (auto simp: group_values_def List.map_filter_def)
  with assms show ?thesis by simp
qed

lemma assign_keeps_columns:
  assumes "length vs = length df"
  shows "map (\<lambda>r. (city r, humidity_percent r)) (assign_temperature_celsius df vs) = map (\<lambda>r. (city r, humidity_percent r)) df"
    and "map (\<lambda>r. (city r, wind_speed_kph r)) (assign_temperature_celsius df vs) = map (\<lambda>r. (city r, wind_speed_kph r)) df"
    and "map (\<lambda>r. (city r, wind_speed_kph r)) (assign_humidity_percent df vs) = map (\<lambda>r. (city r, wind_speed_kph r)) df"
    and "map city (assign_temperature_celsius df vs) = map city df"
    and "map city (assign_humidity_percent df vs) = map city df"
proof -
  have "map (\<lambda>r. (city r, humidity_percent r)) (assign_temperature_celsius df vs)
      = map (\<lambda>r. (city r, humidity_percent r)) (map fst (zip df vs))"
    by (simp add: assign_temperature_celsius_def case_prod_unfold)
  with assms show "map (\<lambda>r. (city r, humidity_percent r)) (assign_temperature_celsius df vs) = map (\<lambda>r. (city r, humidity_percent r)) df"
    by (simp only: map_fst_zip)
  have "map (\<lambda>r. (city r, wind_speed_kph r)) (assign_temperature_celsius df vs)
      = map (\<lambda>r. (city r, wind_speed_kph r)) (map fst (zip df vs))"
    by (simp add: assign_temperature_celsius_def case_prod_unfold)
  with assms show "map (\<lambda>r. (city r, wind_speed_kph r)) (assign_temperature_celsius df vs) = map (\<lambda>r. (city r, wind_speed_kph r)) df"
    by (simp only: map_fst_zip)
  have "map (\<lambda>r. (city r, wind_speed_kph r)) (assign_humidity_percent df vs)
      = map (\<lambda>r. (city r, wind_speed_kph r)) (map fst (zip df vs))"
    by (simp add: assign_humidity_percent_def case_prod_unfold)
  with assms show "map (\<lambda>r. (city r, wind_speed_kph r)) (assign_humidity_percent df vs) = map (\<lambda>r. (city r, wind_speed_kph r)) df"
    by (simp only: map_fst_zip)
  have "map city (assign_temperature_celsius df vs) = map city (map fst (zip df vs))"
    by (simp add: assign_temperature_celsius_def case_prod_unfold)
  with assms show "map city (assign_temperature_celsius df vs) = map city df"
    by (simp only: map_fst_zip)
  have "map city (assign_humidity_percent df vs) = map city (map fst (zip df vs))"
    by (simp add: assign_humidity_percent_def case_prod_unfold)
  with assms show "map city (assign_humidity_percent df vs) = map city df"
    by (simp only: map_fst_zip)
qed

lemma has_values_cong:
  assumes "map city df' = map city df" and "\<And>c. group_values col df' c = group_values col df c"
  shows "has_values col df' = has_values col df"
proof -
  have "has_values col xs \<longleftrightarrow> (\<forall>c \<in> set (map city xs). group_values col xs c \<noteq> [])" for xs
    by (simp add: has_values_def list_all_iff)
  then have "has_values col df' \<longleftrightarrow> (\<forall>c \<in> set (map city df'). group_values col df' c \<noteq> [])"
    and "has_values col df \<longleftrightarrow> (\<forall>c \<in> set (map city df). group_values col df c \<noteq> [])"
    by blast+
  then show ?thesis
    by (simp only: assms)
qed

lemma transform_fillna_returns:
  "(\<exists>vs. transform_fillna col df = Inr vs) \<longleftrightarrow> has_values col df"
proof -
  have "(\<exists>vs. transform_fillna col df = Inr vs) \<longleftrightarrow> \<not> (\<exists>e. transform_fillna col df = Inl e)"
    by (cases "transform_fillna col df") auto
  then show ?thesis
    by (auto simp: transform_fillna_Inl has_values_def list_all_iff)
qed

text \<open>The cleaning returns a table exactly when every city has a value in each of the three columns.\<close>

lemma clean_weather_data_returns:
  "(\<exists>out. clean_weather_data df = Inr out) \<longleftrightarrow>
     has_values temperature_celsius df \<and> has_values humidity_percent df \<and> has_values wind_speed_kph df"
proof (cases "transform_fillna temperature_celsius df")
  case (Inl e)
  then have "\<not> has_values temperature_celsius df"
    using transform_fillna_returns [of temperature_celsius df] by simp
  with Inl show ?thesis by (simp add: clean_weather_data_def)
next
  case ts: (Inr ts)
  then have t: "has_values temperature_celsius df"
    using transform_fillna_returns [of temperature_celsius df] by auto
  let ?df1 = "assign_temperature_celsius df ts"
  from ts have l1: "length ts = length df" by (rule transform_fillna_length)
  have h1: "has_values humidity_percent ?df1 = has_values humidity_percent df"
    using assign_keeps_columns(4) [OF l1] group_values_cong [OF assign_keeps_columns(1) [OF l1]]
    by (rule has_values_cong)
  show ?thesis
  proof (cases "transform_fillna humidity_percent ?df1")
    case (Inl e)
    then have "\<not> has_values humidity_percent ?df1"
      using transform_fillna_returns [of humidity_percent ?df1] by simp
    with Inl ts h1 show ?thesis by (simp add: clean_weather_data_def)
  next
    case hs: (Inr hs)
    then have h: "has_values humidity_percent df"
      using transform_fillna_returns [of humidity_percent ?df1] h1 by auto
    let ?df2 = "assign_humidity_percent ?df1 hs"
    from hs have l2: "length hs = length ?df1" by (rule transform_fillna_length)
    have "map city ?df2 = map city df"
      by (simp only: assign_keeps_columns(5) [OF l2] assign_keeps_columns(4) [OF l1])
    moreover have "map (\<lambda>r. (city r, wind_speed_kph r)) ?df2 = map (\<lambda>r. (city r, wind_speed_kph r)) df"
      by (simp only: assign_keeps_columns(3) [OF l2] assign_keeps_columns(2) [OF l1])
    ultimately have h2: "has_values wind_speed_kph ?df2 = has_values wind_speed_kph df"
      using group_values_cong by (intro has_values_cong) auto
    show ?thesis
    proof (cases "transform_fillna wind_speed_kph ?df2")
      case (Inl e)
      then have "\<not> has_values wind_speed_kph ?df2"
        using transform_fillna_returns [of wind_speed_kph ?df2] by simp
      with Inl ts hs h2 show ?thesis by (simp add: clean_weather_data_def)
    next
      case ws: (Inr ws)
      then have w: "has_values wind_speed_kph df"
        using transform_fillna_returns [of wind_speed_kph ?df2] h2 by auto
      from ts hs ws have "\<exists>out. clean_weather_data df = Inr out"
        by (simp add: clean_weather_data_def apply_custom_date_parser_eq)
      with t h w show ?thesis by simp
    qed
  qed
qed

text \<open>
  C3. A table in which every weather condition is a variant of \<^verbatim>\<open>unknown\<close>, and in which
  the city has no temperature at all: the imputation raises \<open>ValueError\<close>, so the
  cleaning returns no table, where the claim promises an empty one without an error.
\<close>

theorem all_unknown_table_raises:
  "unknown_variant (Some '' UNKNOWN '') \<and>
   clean_weather_data [obs ''X'' (Some ''2020-01-01'') (Some '' UNKNOWN '') None] = Inl ValueError"
  by code_simp

section \<open>Properties of the category normalizer\<close>










section \<open>Properties of the report\<close>

















end
